theory Spec2Isabelle
  imports Main
begin

section \<open>Messages as the rules see them\<close>

text \<open>
  The rules of \<^verbatim>\<open>dispatch/rules/user.py\<close> read a few fields of a message. The message
  type itself comes from a vendor schema package, so only the fields the rules touch are
  kept: the text (a sequence of characters of any character type \<open>'c\<close>), the optional
  attachment list, and the optional state entry of the peer (\<open>state_peer\<close>, which is
  \<open>None\<close> when the peer has no current state).
\<close>

record sticker =
  sticker_id :: int

record attachment =
  type_value :: string  \<comment> \<open>\<^verbatim>\<open>attachment.type.value\<close>\<close>
  sticker :: "sticker option"

record 's state_peer =
  peer_id :: int
  state :: 's

record ('c, 's) message =
  message_text :: "'c list"  \<comment> \<open>\<^verbatim>\<open>message.text\<close>\<close>
  attachments :: "attachment list option"
  state_peer :: "'s state_peer option"

section \<open>StateRule\<close>

text \<open>
  The constructor takes a list of states, a single state, or \<^verbatim>\<open>None\<close>; anything that is
  not a list is wrapped, \<^verbatim>\<open>None\<close> becoming the empty list.
\<close>

datatype 's state_arg = StateList "'s list" | StateSingle 's | StateNone

record 's StateRule =
  rule_state :: "'s list"  \<comment> \<open>\<^verbatim>\<open>self.state\<close>\<close>

definition StateRule_init :: "'s state_arg \<Rightarrow> 's StateRule" where
  "StateRule_init arg =
     \<lparr>rule_state = (case arg of
        StateList xs \<Rightarrow> xs
      | StateNone \<Rightarrow> []
      | StateSingle x \<Rightarrow> [x])\<rparr>"

definition StateRule_check :: "'s StateRule \<Rightarrow> ('c, 's) message \<Rightarrow> bool" where
  "StateRule_check self message =
     (case state_peer message of
        None \<Rightarrow> rule_state self = []
      | Some sp \<Rightarrow> state sp \<in> set (rule_state self))"

section \<open>AttachmentTypeRule\<close>

text \<open>
  Several constructors accept either one value or a list of values and wrap a single
  value into a one-element list (\<^verbatim>\<open>if not isinstance(x, list): x = [x]\<close>).
\<close>

datatype 'a one_or_list = One 'a | Many "'a list"

fun as_list :: "'a one_or_list \<Rightarrow> 'a list" where
  "as_list (Many xs) = xs"
| "as_list (One x) = [x]"

record AttachmentTypeRule =
  attachment_types :: "string list"

definition AttachmentTypeRule_init :: "string one_or_list \<Rightarrow> AttachmentTypeRule" where
  "AttachmentTypeRule_init arg = \<lparr>attachment_types = as_list arg\<rparr>"

text \<open>The \<^verbatim>\<open>for\<close> loop of \<^verbatim>\<open>check\<close>, returning at the first foreign type.\<close>

fun attachment_loop :: "string list \<Rightarrow> attachment list \<Rightarrow> bool" where
  "attachment_loop types [] = True"
| "attachment_loop types (a # rest) =
     (if type_value a \<notin> set types then False else attachment_loop types rest)"

definition AttachmentTypeRule_check :: "AttachmentTypeRule \<Rightarrow> ('c, 's) message \<Rightarrow> bool" where
  "AttachmentTypeRule_check self message =
     (case attachments message of
        None \<Rightarrow> False
      | Some [] \<Rightarrow> False
      | Some (a # rest) \<Rightarrow> attachment_loop (attachment_types self) (a # rest))"

section \<open>StickerRule\<close>

text \<open>
  The constructor is annotated \<^verbatim>\<open>Union[List[int], int, bool]\<close>, so the configured
  values are Python integers or booleans. Python compares them by numeric value:
  \<^verbatim>\<open>True == 1\<close> and \<^verbatim>\<open>False == 0\<close>, which is what membership (\<^verbatim>\<open>in\<close>) uses.
\<close>

datatype py_id = PyInt int | PyBool bool

fun py_id_value :: "py_id \<Rightarrow> int" where
  "py_id_value (PyInt i) = i"
| "py_id_value (PyBool b) = (if b then 1 else 0)"

record StickerRule =
  sticker_ids :: "py_id list"

definition StickerRule_init :: "py_id one_or_list \<Rightarrow> StickerRule" where
  "StickerRule_init arg = \<lparr>sticker_ids = as_list arg\<rparr>"

definition StickerRule_check :: "StickerRule \<Rightarrow> ('c, 's) message \<Rightarrow> bool" where
  "StickerRule_check self message =
     (case attachments message of
        None \<Rightarrow> False
      | Some [] \<Rightarrow> False
      | Some (a # rest) \<Rightarrow>
          (case sticker a of
             None \<Rightarrow> False
           | Some s \<Rightarrow>
               sticker_ids self = [] \<or> sticker_id s \<in> set (map py_id_value (sticker_ids self))))"

section \<open>LevensteinRule\<close>

text \<open>
  \<^verbatim>\<open>distance\<close> keeps two rows of the dynamic-programming table. The inner loop body
  writes one cell of the current row from its left neighbour and from the two cells above.
  Rows hold non-negative integers and are indexed as in the source; every index the loops
  produce is within the row (rows have length \<open>n + 1\<close>, \<open>j\<close> runs over \<open>1..n\<close>).
\<close>

definition distance_cell :: "'c list \<Rightarrow> 'c \<Rightarrow> nat list \<Rightarrow> nat \<Rightarrow> nat list \<Rightarrow> nat list" where
  "distance_cell a b_i previous_row j current_row =
     (let add = previous_row ! j + 1;
          delete = current_row ! (j - 1) + 1;
          change = previous_row ! (j - 1);
          change = (if a ! (j - 1) \<noteq> b_i then change + 1 else change)
      in current_row[j := min add (min delete change)])"

definition distance_row :: "'c list \<Rightarrow> 'c list \<Rightarrow> nat \<Rightarrow> nat \<Rightarrow> nat list \<Rightarrow> nat list" where
  "distance_row a b n i current_row =
     (let previous_row = current_row;
          current_row = i # replicate n 0
      in fold (distance_cell a (b ! (i - 1)) previous_row) [1..<n + 1] current_row)"

definition distance :: "'c list \<Rightarrow> 'c list \<Rightarrow> nat" where
  "distance a0 b0 =
     (let (a, b) = (if length a0 > length b0 then (b0, a0) else (a0, b0));
          n = length a;
          m = length b;
          current_row = fold (distance_row a b n) [1..<m + 1] [0..<n + 1]
      in current_row ! n)"

record 'c LevensteinRule =
  levenstein_texts :: "'c list list"
  max_distance :: int

definition LevensteinRule_init :: "'c list one_or_list \<Rightarrow> int \<Rightarrow> 'c LevensteinRule" where
  "LevensteinRule_init texts max_dist =
     \<lparr>levenstein_texts = as_list texts, max_distance = max_dist\<rparr>"

fun levenstein_loop :: "'c list \<Rightarrow> int \<Rightarrow> 'c list list \<Rightarrow> bool" where
  "levenstein_loop txt max_dist [] = False"
| "levenstein_loop txt max_dist (levenstein_text # rest) =
     (if int (distance txt levenstein_text) \<le> max_dist then True
      else levenstein_loop txt max_dist rest)"

definition LevensteinRule_check :: "'c LevensteinRule \<Rightarrow> ('c, 's) message \<Rightarrow> bool" where
  "LevensteinRule_check self message =
     levenstein_loop (message_text message) (max_distance self) (levenstein_texts self)"

text \<open>
  The reference the code is compared with: the Levenshtein distance by its usual
  recursive definition (delete, insert, or substitute the first characters).
\<close>

fun levenshtein :: "'c list \<Rightarrow> 'c list \<Rightarrow> nat" where
  "levenshtein [] ys = length ys"
| "levenshtein xs [] = length xs"
| "levenshtein (x # xs) (y # ys) =
     min (levenshtein xs (y # ys) + 1)
       (min (levenshtein (x # xs) ys + 1)
            (levenshtein xs ys + (if x = y then 0 else 1)))"


definition subst_cost :: "'c \<Rightarrow> 'c \<Rightarrow> nat" where
  "subst_cost x y = (if x = y then 0 else 1)"

text \<open>Entry \<open>(i, j)\<close> of the full table: the distance between the prefixes.\<close>

definition lev_table :: "'c list \<Rightarrow> 'c list \<Rightarrow> nat \<Rightarrow> nat \<Rightarrow> nat" where
  "lev_table a b i j = levenshtein (take j a) (take i b)"

section \<open>UserPolling.listen\<close>

text \<open>
  The long-poll server descriptor and the poll responses are JSON objects, read as Python
  dictionaries. \<^verbatim>\<open>event.get("failed")\<close> is tested for truth, so Python's truth value of a
  JSON value is needed (floating-point numbers are left out).
\<close>

datatype json =
  JNull | JBool bool | JInt int | JStr string | JList "json list" | JObject "(string \<times> json) list"

fun truthy :: "json \<Rightarrow> bool" where
  "truthy JNull = False"
| "truthy (JBool b) = b"
| "truthy (JInt i) = (i \<noteq> 0)"
| "truthy (JStr s) = (s \<noteq> [])"
| "truthy (JList xs) = (xs \<noteq> [])"
| "truthy (JObject kvs) = (kvs \<noteq> [])"

type_synonym dict = "string \<rightharpoonup> json"

definition failed :: "dict \<Rightarrow> bool" where
  \<comment> \<open>\<^verbatim>\<open>if event.get("failed")\<close>\<close>
  "failed event = (case event ''failed'' of None \<Rightarrow> False | Some v \<Rightarrow> truthy v)"

text \<open>
  Exceptions: the two the modelled code raises itself, and whatever a collaborator (the
  transport, the error handler, a rule constructor) raises, of any type \<open>'x\<close>.
\<close>

datatype 'x exn = KeyError string | TypeError | Raised 'x

text \<open>
  \<^verbatim>\<open>get_server\<close>, \<^verbatim>\<open>get_event\<close> and \<^verbatim>\<open>error_handler.handle\<close> talk to the outside
  world; what they return or raise is not decided by the loop. One record per loop
  iteration gives the value of \<^verbatim>\<open>self.stop\<close> at the loop test and the outcome of each
  call the iteration may make (\<open>Inl\<close>: the call raises; for the handler \<open>Some e\<close>: it
  raises \<open>e\<close>). The consumer of the generator is taken to resume it normally after each
  \<^verbatim>\<open>yield\<close>.
\<close>

record 'x iteration =
  stop :: bool
  get_event_result :: "'x exn + dict"
  get_server_result :: "'x exn + dict"
  handle_result :: "'x exn option"

text \<open>What the loop does, in order; each call is recorded with its arguments and outcome.\<close>

datatype 'x action =
  GetServer "'x exn + dict"
| GetEvent dict "'x exn + dict"
| Yield dict
| Handle "'x exn" "'x exn option"

text \<open>The body of the \<^verbatim>\<open>try\<close> block: the actions, and the new descriptor or the exception.\<close>

definition try_body :: "'x iteration \<Rightarrow> dict \<Rightarrow> 'x action list \<times> ('x exn + dict)" where
  "try_body env server =
     (case get_event_result env of
        Inl e \<Rightarrow> ([GetEvent server (Inl e)], Inl e)
      | Inr event \<Rightarrow>
          if failed event then
            (case get_server_result env of
               Inl e \<Rightarrow> ([GetEvent server (Inr event), GetServer (Inl e)], Inl e)
             | Inr server' \<Rightarrow>
                 ([GetEvent server (Inr event), GetServer (Inr server')], Inr server'))
          else
            (case event ''ts'' of
               None \<Rightarrow> ([GetEvent server (Inr event)], Inl (KeyError ''ts''))
             | Some ts \<Rightarrow>
                 ([GetEvent server (Inr event), Yield event], Inr (server(''ts'' \<mapsto> ts)))))"

text \<open>
  One pass through the loop body with its \<^verbatim>\<open>except BaseException\<close> clause. \<open>Inr\<close> is the
  descriptor the next iteration starts with, \<open>Inl\<close> an exception leaving \<^verbatim>\<open>listen\<close>
  (only the handler's own).
\<close>

definition listen_iteration :: "'x iteration \<Rightarrow> dict \<Rightarrow> 'x action list \<times> ('x exn + dict)" where
  "listen_iteration env server =
     (case try_body env server of
        (acts, Inr server') \<Rightarrow> (acts, Inr server')
      | (acts, Inl e) \<Rightarrow>
          (acts @ [Handle e (handle_result env)],
           case handle_result env of None \<Rightarrow> Inr server | Some e' \<Rightarrow> Inl e'))"

datatype 'x status = Suspended dict | Stopped | Propagated "'x exn"

text \<open>
  The \<^verbatim>\<open>while not self.stop\<close> loop over a finite script of iterations; when the script
  ends the generator is still running (\<open>Suspended\<close>).
\<close>

fun listen_loop :: "'x iteration list \<Rightarrow> dict \<Rightarrow> 'x action list \<times> 'x status" where
  "listen_loop [] server = ([], Suspended server)"
| "listen_loop (env # rest) server =
     (if stop env then ([], Stopped)
      else
        (case listen_iteration env server of
           (acts, Inl e) \<Rightarrow> (acts, Propagated e)
         | (acts, Inr server') \<Rightarrow>
             (case listen_loop rest server' of (acts', st) \<Rightarrow> (acts @ acts', st))))"

definition listen :: "'x exn + dict \<Rightarrow> 'x iteration list \<Rightarrow> 'x action list \<times> 'x status" where
  "listen first_server script =
     (case first_server of
        Inl e \<Rightarrow> ([GetServer (Inl e)], Propagated e)
      | Inr server \<Rightarrow>
          (case listen_loop script server of
             (acts, st) \<Rightarrow> (GetServer (Inr server) # acts, st)))"


text \<open>Observations on a run: the exceptions handed to the error handler and the events
  yielded, in order.\<close>

fun handled :: "'x action list \<Rightarrow> 'x exn list" where
  "handled [] = []"
| "handled (Handle e r # rest) = e # handled rest"
| "handled (a # rest) = handled rest"

fun yielded :: "'x action list \<Rightarrow> dict list" where
  "yielded [] = []"
| "yielded (Yield event # rest) = event # yielded rest"
| "yielded (a # rest) = yielded rest"

text \<open>
  The transport raises \<open>e\<close> in an iteration: the poll itself raises, or the poll reports
  an expired session and the acquisition of a new one raises.
\<close>

definition transport_raises :: "'x iteration \<Rightarrow> 'x exn \<Rightarrow> bool" where
  "transport_raises env e \<longleftrightarrow>
     get_event_result env = Inl e \<or>
     (case get_event_result env of
        Inl _ \<Rightarrow> False
      | Inr event \<Rightarrow> failed event \<and> get_server_result env = Inl e)"

text \<open>
  Two properties of a run. In \<open>reacquires\<close>, every poll that reported an expired session
  is directly followed by a \<^verbatim>\<open>get_server\<close> call. In \<open>polls_fresh\<close>, when that call
  returned a descriptor and the run goes on, the next action is a poll with that
  descriptor.
\<close>

definition reacquires :: "'x action list \<Rightarrow> bool" where
  "reacquires trace \<longleftrightarrow>
     (\<forall>pre s event post. trace = pre @ GetEvent s (Inr event) # post \<and> failed event \<longrightarrow>
        (\<exists>r post'. post = GetServer r # post'))"

definition polls_fresh :: "'x action list \<Rightarrow> bool" where
  "polls_fresh trace \<longleftrightarrow>
     (\<forall>pre s event server' x post.
        trace = pre @ GetEvent s (Inr event) # GetServer (Inr server') # x # post \<and> failed event \<longrightarrow>
        (\<exists>res. x = GetEvent server' res))"

section \<open>BotLabeler\<close>

text \<open>
  The rule classes the labeler imports (from the bot rule module) and the name table
  \<^verbatim>\<open>CUSTOM_RULES\<close> that maps a keyword to a class. A user may register classes of their own
  (\<open>Custom\<close>).
\<close>

datatype bot_rule =
  PeerRule | CommandRule | FromUserRule | FromPeerRule | StickerRule | AttachmentTypeRule
| LevensteinRule | MessageLengthRule | ChatActionRule | PayloadRule | PayloadContainsRule
| PayloadMapRule | FuncRule | CoroutineRule | StateRule | StateGroupRule | RegexRule | VBMLRule

datatype 'k rule_class = Builtin bot_rule | Custom 'k

type_synonym 'k registry = "string \<rightharpoonup> 'k rule_class"

definition CUSTOM_RULES_literal :: "'k registry" where
  "CUSTOM_RULES_literal = map_of
     [(''from_chat'', Builtin PeerRule),
      (''command'', Builtin CommandRule),
      (''from_user'', Builtin FromUserRule),
      (''peer_ids'', Builtin FromPeerRule),
      (''sticker'', Builtin StickerRule),
      (''attachment'', Builtin AttachmentTypeRule),
      (''levenstein'', Builtin LevensteinRule),
      (''lev'', Builtin LevensteinRule),
      (''length'', Builtin MessageLengthRule),
      (''action'', Builtin ChatActionRule),
      (''payload'', Builtin PayloadRule),
      (''payload_contains'', Builtin PayloadContainsRule),
      (''payload_map'', Builtin PayloadMapRule),
      (''func'', Builtin FuncRule),
      (''coro'', Builtin CoroutineRule),
      (''coroutine'', Builtin CoroutineRule),
      (''state'', Builtin StateRule),
      (''state_group'', Builtin StateGroupRule),
      (''regexp'', Builtin RegexRule),
      (''text'', Builtin VBMLRule)]"

text \<open>
  Dictionaries are objects: a variable or attribute holds a reference. The registry
  dictionaries live in a store indexed by address; the module-level name
  \<^verbatim>\<open>CUSTOM_RULES\<close> is bound to one address for the life of the process.
\<close>

type_synonym addr = nat

type_synonym 'k store = "addr \<Rightarrow> 'k registry"

definition CUSTOM_RULES :: addr where
  "CUSTOM_RULES = 0"

definition module_store :: "'k store" where
  \<comment> \<open>the store once the module has been imported\<close>
  "module_store = (\<lambda>_. Map.empty)(CUSTOM_RULES := CUSTOM_RULES_literal)"

text \<open>
  Handlers and views. \<^verbatim>\<open>FromFuncHandler(func, *rules, blocking=...)\<close> and
  \<^verbatim>\<open>BotHandlerBasement(dataclass, handler)\<close> are constructor calls: the values keep the
  arguments (\<open>None\<close> for \<^verbatim>\<open>blocking\<close> when the call does not pass it). The message
  view keeps its handlers in a list, the raw-event view in a dictionary keyed by event
  name.
\<close>

datatype ('f, 'r) handler = FromFuncHandler 'f "'r list" "bool option"

datatype ('d, 'f, 'r) basement = BotHandlerBasement 'd "('f, 'r) handler"

record ('f, 'r, 'm) BotMessageView =
  handlers :: "('f, 'r) handler list"
  middlewares :: "'m list"

record ('d, 'f, 'r, 'm) BotRawEventView =
  handlers :: "string \<rightharpoonup> ('d, 'f, 'r) basement"
  middlewares :: "'m list"

datatype 'p config_value = RegexFlag int | Patcher 'p

type_synonym 'p rule_config = "string \<rightharpoonup> 'p config_value"

definition re_IGNORECASE :: int where
  "re_IGNORECASE = 2"

definition re_MULTILINE :: int where
  "re_MULTILINE = 8"

record ('d, 'f, 'r, 'm, 'p) BotLabeler =
  message_view :: "('f, 'r, 'm) BotMessageView"
  raw_event_view :: "('d, 'f, 'r, 'm) BotRawEventView"
  custom_rules :: addr
  auto_rules :: "'r list"
  rule_config :: "'p rule_config"

text \<open>
  \<^verbatim>\<open>__init__\<close>: fresh empty views, the update of the dictionary \<^verbatim>\<open>CUSTOM_RULES\<close> in
  place with the \<^verbatim>\<open>custom_rules\<close> keyword argument (an empty dictionary when absent),
  and \<^verbatim>\<open>self.custom_rules = CUSTOM_RULES\<close>, which stores the reference. The new
  \<^verbatim>\<open>vbml.Patcher()\<close> object is passed in.
\<close>

definition BotLabeler_init ::
  "'p \<Rightarrow> 'k registry option \<Rightarrow> 'k store \<Rightarrow> ('d, 'f, 'r, 'm, 'p) BotLabeler \<times> 'k store" where
  "BotLabeler_init new_patcher custom_rules_kwarg store =
     (let update = (case custom_rules_kwarg of None \<Rightarrow> Map.empty | Some d \<Rightarrow> d);
          store' = store(CUSTOM_RULES := store CUSTOM_RULES ++ update)
      in (\<lparr>message_view = \<lparr>BotMessageView.handlers = [], middlewares = []\<rparr>,
           raw_event_view = \<lparr>BotRawEventView.handlers = Map.empty, middlewares = []\<rparr>,
           custom_rules = CUSTOM_RULES,
           auto_rules = [],
           rule_config = [''vbml_flags'' \<mapsto> RegexFlag re_MULTILINE,
                          ''vbml_patcher'' \<mapsto> Patcher new_patcher]\<rparr>,
          store'))"


unbundle bit_operations_syntax

text \<open>
  The properties. The getter of \<^verbatim>\<open>vbml_ignore_case\<close> reads
  \<^verbatim>\<open>self.rule_config["flags"]\<close> and tests \<^verbatim>\<open>re.IGNORECASE in\<close> it (for flags:
  all bits of the left operand are set in the right one); its setter and the other
  properties use the keys \<^verbatim>\<open>"vbml_flags"\<close> and \<^verbatim>\<open>"vbml_patcher"\<close>.
\<close>

definition vbml_ignore_case ::
  "('d, 'f, 'r, 'm, 'p) BotLabeler \<Rightarrow> 'x exn + bool" where
  "vbml_ignore_case self =
     (case rule_config self ''flags'' of
        None \<Rightarrow> Inl (KeyError ''flags'')
      | Some (RegexFlag flags) \<Rightarrow> Inr (flags AND re_IGNORECASE = re_IGNORECASE)
      | Some (Patcher p) \<Rightarrow> Inl TypeError)"

definition vbml_ignore_case_setter ::
  "('d, 'f, 'r, 'm, 'p) BotLabeler \<Rightarrow> bool \<Rightarrow> 'x exn + ('d, 'f, 'r, 'm, 'p) BotLabeler" where
  "vbml_ignore_case_setter self ignore_case =
     (case rule_config self ''vbml_flags'' of
        None \<Rightarrow> Inl (KeyError ''vbml_flags'')
      | Some (Patcher p) \<Rightarrow> Inl TypeError
      | Some (RegexFlag flags) \<Rightarrow>
          Inr (self\<lparr>rule_config := (rule_config self)(''vbml_flags'' \<mapsto>
                 RegexFlag (if \<not> ignore_case then flags XOR re_IGNORECASE
                            else flags OR re_IGNORECASE))\<rparr>))"

definition vbml_patcher ::
  "('d, 'f, 'r, 'm, 'p) BotLabeler \<Rightarrow> 'x exn + 'p config_value" where
  "vbml_patcher self =
     (case rule_config self ''vbml_patcher'' of
        None \<Rightarrow> Inl (KeyError ''vbml_patcher'')
      | Some v \<Rightarrow> Inr v)"

definition vbml_patcher_setter ::
  "('d, 'f, 'r, 'm, 'p) BotLabeler \<Rightarrow> 'p \<Rightarrow> ('d, 'f, 'r, 'm, 'p) BotLabeler" where
  "vbml_patcher_setter self patcher =
     self\<lparr>rule_config := (rule_config self)(''vbml_patcher'' \<mapsto> Patcher patcher)\<rparr>"

definition vbml_flags ::
  "('d, 'f, 'r, 'm, 'p) BotLabeler \<Rightarrow> 'x exn + 'p config_value" where
  "vbml_flags self =
     (case rule_config self ''vbml_flags'' of
        None \<Rightarrow> Inl (KeyError ''vbml_flags'')
      | Some v \<Rightarrow> Inr v)"

definition vbml_flags_setter ::
  "('d, 'f, 'r, 'm, 'p) BotLabeler \<Rightarrow> int \<Rightarrow> ('d, 'f, 'r, 'm, 'p) BotLabeler" where
  "vbml_flags_setter self flags =
     self\<lparr>rule_config := (rule_config self)(''vbml_flags'' \<mapsto> RegexFlag flags)\<rparr>"

text \<open>
  Code the labeler calls but that lies outside the files at hand is a parameter:
  \<^verbatim>\<open>convert_shorten_filter\<close>, the construction \<^verbatim>\<open>cls.with_config(config)(value)\<close> of a
  rule from a registered class (it builds the rule or raises), and the constructor of
  the imported \<^verbatim>\<open>PeerRule\<close>.
\<close>

record ('sr, 'k, 'p, 'v, 'x, 'r) collaborators =
  convert_shorten_filter :: "'sr \<Rightarrow> 'r"
  with_config :: "'k rule_class \<Rightarrow> 'p rule_config \<Rightarrow> 'v \<Rightarrow> 'x exn + 'r"
  new_PeerRule :: "bool \<Rightarrow> 'r"

text \<open>
  \<^verbatim>\<open>get_custom_rules\<close>: the list comprehension over the keyword arguments, in order.
  \<^verbatim>\<open>self.custom_rules[k]\<close> raises \<^verbatim>\<open>KeyError\<close> for a name that is not registered.
\<close>

fun custom_rules_comprehension ::
  "('k rule_class \<Rightarrow> 'p rule_config \<Rightarrow> 'v \<Rightarrow> 'x exn + 'r) \<Rightarrow> 'k registry \<Rightarrow> 'p rule_config \<Rightarrow>
   (string \<times> 'v) list \<Rightarrow> 'x exn + 'r list" where
  "custom_rules_comprehension wc registry config [] = Inr []"
| "custom_rules_comprehension wc registry config ((k, v) # rest) =
     (case registry k of
        None \<Rightarrow> Inl (KeyError k)
      | Some cls \<Rightarrow>
          (case wc cls config v of
             Inl e \<Rightarrow> Inl e
           | Inr rule \<Rightarrow>
               (case custom_rules_comprehension wc registry config rest of
                  Inl e \<Rightarrow> Inl e
                | Inr rules \<Rightarrow> Inr (rule # rules))))"

definition get_custom_rules ::
  "('sr, 'k, 'p, 'v, 'x, 'r) collaborators \<Rightarrow> 'k store \<Rightarrow> ('d, 'f, 'r, 'm, 'p) BotLabeler \<Rightarrow>
   (string \<times> 'v) list \<Rightarrow> 'x exn + 'r list" where
  "get_custom_rules ext store self kwargs =
     custom_rules_comprehension (with_config ext) (store (custom_rules self))
       (rule_config self) kwargs"

text \<open>
  The registration decorators. \<^verbatim>\<open>labeler.message(*rules, blocking=b, **custom_rules)\<close>
  returns the inner function \<^verbatim>\<open>decorator\<close>; the handler is built and appended when
  \<^verbatim>\<open>decorator\<close> is applied to the handler function, in the store and labeler state of that
  moment. The result is the exception raised, if any, and the labeler afterwards.
\<close>

definition append_handler ::
  "('f, 'r) handler \<Rightarrow> ('d, 'f, 'r, 'm, 'p) BotLabeler \<Rightarrow> ('d, 'f, 'r, 'm, 'p) BotLabeler" where
  \<comment> \<open>\<^verbatim>\<open>self.message_view.handlers.append(h)\<close>\<close>
  "append_handler h self =
     self\<lparr>message_view := (message_view self)
       \<lparr>BotMessageView.handlers := BotMessageView.handlers (message_view self) @ [h]\<rparr>\<rparr>"

definition message ::
  "('sr, 'k, 'p, 'v, 'x, 'r) collaborators \<Rightarrow> 'sr list \<Rightarrow> bool \<Rightarrow> (string \<times> 'v) list \<Rightarrow>
   'f \<Rightarrow> 'k store \<Rightarrow> ('d, 'f, 'r, 'm, 'p) BotLabeler \<Rightarrow>
   'x exn option \<times> ('d, 'f, 'r, 'm, 'p) BotLabeler" where
  "message ext rules blocking kwargs func store self =
     (case get_custom_rules ext store self kwargs of
        Inl e \<Rightarrow> (Some e, self)
      | Inr custom \<Rightarrow>
          (None, append_handler
             (FromFuncHandler func
                (map (convert_shorten_filter ext) rules @ auto_rules self @ custom)
                (Some blocking)) self))"

definition chat_message ::
  "('sr, 'k, 'p, 'v, 'x, 'r) collaborators \<Rightarrow> 'sr list \<Rightarrow> bool \<Rightarrow> (string \<times> 'v) list \<Rightarrow>
   'f \<Rightarrow> 'k store \<Rightarrow> ('d, 'f, 'r, 'm, 'p) BotLabeler \<Rightarrow>
   'x exn option \<times> ('d, 'f, 'r, 'm, 'p) BotLabeler" where
  "chat_message ext rules blocking kwargs func store self =
     (case get_custom_rules ext store self kwargs of
        Inl e \<Rightarrow> (Some e, self)
      | Inr custom \<Rightarrow>
          (None, append_handler
             (FromFuncHandler func
                (new_PeerRule ext True # map (convert_shorten_filter ext) rules
                   @ auto_rules self @ custom)
                (Some blocking)) self))"

definition private_message ::
  "('sr, 'k, 'p, 'v, 'x, 'r) collaborators \<Rightarrow> 'sr list \<Rightarrow> bool \<Rightarrow> (string \<times> 'v) list \<Rightarrow>
   'f \<Rightarrow> 'k store \<Rightarrow> ('d, 'f, 'r, 'm, 'p) BotLabeler \<Rightarrow>
   'x exn option \<times> ('d, 'f, 'r, 'm, 'p) BotLabeler" where
  "private_message ext rules blocking kwargs func store self =
     (case get_custom_rules ext store self kwargs of
        Inl e \<Rightarrow> (Some e, self)
      | Inr custom \<Rightarrow>
          (None, append_handler
             (FromFuncHandler func
                (new_PeerRule ext False # map (convert_shorten_filter ext) rules
                   @ auto_rules self @ custom)
                (Some blocking)) self))"

text \<open>
  \<^verbatim>\<open>raw_event\<close>: the decorator loops over the event names; each pass builds the handler
  (calling \<^verbatim>\<open>get_custom_rules\<close> again) and stores it under the name.
\<close>

fun raw_event_loop ::
  "('sr, 'k, 'p, 'v, 'x, 'r) collaborators \<Rightarrow> 'd \<Rightarrow> 'sr list \<Rightarrow> (string \<times> 'v) list \<Rightarrow>
   'f \<Rightarrow> 'k store \<Rightarrow> string list \<Rightarrow> ('d, 'f, 'r, 'm, 'p) BotLabeler \<Rightarrow>
   'x exn option \<times> ('d, 'f, 'r, 'm, 'p) BotLabeler" where
  "raw_event_loop ext dataclass rules kwargs func store [] self = (None, self)"
| "raw_event_loop ext dataclass rules kwargs func store (e # es) self =
     (case get_custom_rules ext store self kwargs of
        Inl x \<Rightarrow> (Some x, self)
      | Inr custom \<Rightarrow>
          raw_event_loop ext dataclass rules kwargs func store es
            (self\<lparr>raw_event_view := (raw_event_view self)
               \<lparr>BotRawEventView.handlers :=
                  (BotRawEventView.handlers (raw_event_view self))(e \<mapsto>
                     BotHandlerBasement dataclass
                       (FromFuncHandler func
                          (map (convert_shorten_filter ext) rules @ auto_rules self @ custom)
                          None))\<rparr>\<rparr>))"

definition raw_event ::
  "('sr, 'k, 'p, 'v, 'x, 'r) collaborators \<Rightarrow> string one_or_list \<Rightarrow> 'd \<Rightarrow> 'sr list \<Rightarrow>
   (string \<times> 'v) list \<Rightarrow> 'f \<Rightarrow> 'k store \<Rightarrow> ('d, 'f, 'r, 'm, 'p) BotLabeler \<Rightarrow>
   'x exn option \<times> ('d, 'f, 'r, 'm, 'p) BotLabeler" where
  "raw_event ext event dataclass rules kwargs func store self =
     raw_event_loop ext dataclass rules kwargs func store (as_list event) self"

text \<open>
  \<^verbatim>\<open>load\<close>: two list \<^verbatim>\<open>extend\<close>s for the message view, and for the raw-event view a
  dictionary \<^verbatim>\<open>update\<close> (an entry of the argument replaces an entry under the same key)
  and a list \<^verbatim>\<open>extend\<close>.
\<close>

definition load ::
  "('d, 'f, 'r, 'm, 'p) BotLabeler \<Rightarrow> ('d, 'f, 'r, 'm, 'p) BotLabeler \<Rightarrow>
   ('d, 'f, 'r, 'm, 'p) BotLabeler" where
  "load self labeler =
     self\<lparr>message_view :=
            \<lparr>BotMessageView.handlers =
               BotMessageView.handlers (message_view self)
                 @ BotMessageView.handlers (message_view labeler),
             middlewares =
               BotMessageView.middlewares (message_view self)
                 @ BotMessageView.middlewares (message_view labeler)\<rparr>,
          raw_event_view :=
            \<lparr>BotRawEventView.handlers =
               BotRawEventView.handlers (raw_event_view self)
                 ++ BotRawEventView.handlers (raw_event_view labeler),
             middlewares =
               BotRawEventView.middlewares (raw_event_view self)
                 @ BotRawEventView.middlewares (raw_event_view labeler)\<rparr>\<rparr>"


text \<open>
  A concrete choice of the collaborators for the examples below: rules, rule arguments
  and handler functions are numbers, \<^verbatim>\<open>convert_shorten_filter\<close> returns its argument,
  every rule class builds its rule from the argument and never raises.
\<close>

definition example_collaborators :: "(nat, nat, nat, nat, nat, nat) collaborators" where
  "example_collaborators =
     \<lparr>convert_shorten_filter = (\<lambda>rule. rule),
      with_config = (\<lambda>cls config v. Inr v),
      new_PeerRule = (\<lambda>from_chat. if from_chat then 1 else 0)\<rparr>"

section \<open>The state store\<close>

text \<open>
  Modelled from the spec: the state store (the dispenser that keeps it is not among the
  files at hand). It maps a peer id to at most one state value, with the operations
  \<open>get\<close>, \<open>set\<close> and \<open>clear\<close>; absence means that the peer has no state.
\<close>

type_synonym 's state_store = "int \<rightharpoonup> 's"

definition store_get :: "'s state_store \<Rightarrow> int \<Rightarrow> 's option" where
  "store_get st peer = st peer"

definition store_set :: "'s state_store \<Rightarrow> int \<Rightarrow> 's \<Rightarrow> 's state_store" where
  "store_set st peer v = st(peer \<mapsto> v)"

definition store_clear :: "'s state_store \<Rightarrow> int \<Rightarrow> 's state_store" where
  "store_clear st peer = st(peer := None)"

text \<open>
  Modelled from the spec: the state entry a message of a peer carries during dispatch is
  what the store holds for that peer (the rules read it as \<^verbatim>\<open>message.state_peer\<close>).
\<close>

definition current_state_peer :: "'s state_store \<Rightarrow> int \<Rightarrow> 's state_peer option" where
  "current_state_peer st peer =
     (case store_get st peer of
        None \<Rightarrow> None
      | Some v \<Rightarrow> Some \<lparr>peer_id = peer, state = v\<rparr>)"

section \<open>State rules: what matches\<close>

text \<open>
  C1. A StateRule built from an empty list, or from \<^verbatim>\<open>None\<close>, matches a message exactly
  when the message carries no state entry. Built from a non-empty list (or a single
  state) it matches exactly when the message carries a state entry whose state is in the
  list. Hence, once the store holds \<open>x\<close> for the peer, the rule for \<open>[x]\<close> matches and the
  rule for the empty list does not.
\<close>

theorem StateRule_check_iff:
  "(StateRule_check (StateRule_init (StateList [])) m \<longleftrightarrow> state_peer m = None) \<and>
   (StateRule_check (StateRule_init StateNone) m \<longleftrightarrow> state_peer m = None) \<and>
   (xs \<noteq> [] \<longrightarrow>
      (StateRule_check (StateRule_init (StateList xs)) m \<longleftrightarrow>
         (\<exists>sp. state_peer m = Some sp \<and> state sp \<in> set xs))) \<and>
   (StateRule_check (StateRule_init (StateSingle y)) m \<longleftrightarrow>
      (\<exists>sp. state_peer m = Some sp \<and> state sp = y)) \<and>
   (state_peer m = current_state_peer (store_set st peer x) peer \<longrightarrow>
      StateRule_check (StateRule_init (StateList [x])) m \<and>
      \<not> StateRule_check (StateRule_init (StateList [])) m)"
  by (auto simp: StateRule_check_def StateRule_init_def current_state_peer_def store_get_def
      store_set_def split: option.splits)

theorem StateRule_check_iff_witness:
  "[5::nat] \<noteq> [] \<and>
   state_peer \<lparr>message_text = ''hi'', attachments = None,
       state_peer = Some \<lparr>peer_id = 7, state = 5::nat\<rparr>\<rparr> =
     current_state_peer (store_set Map.empty 7 5) 7 \<and>
   StateRule_check (StateRule_init (StateList [5::nat]))
     \<lparr>message_text = ''hi'', attachments = None,
       state_peer = Some \<lparr>peer_id = 7, state = 5\<rparr>\<rparr> \<and>
   \<not> StateRule_check (StateRule_init (StateList []))
     \<lparr>message_text = ''hi'', attachments = None,
       state_peer = Some \<lparr>peer_id = 7, state = 5::nat\<rparr>\<rparr>"
  using StateRule_check_iff [of "\<lparr>message_text = ''hi'', attachments = None,
       state_peer = Some \<lparr>peer_id = 7, state = 5::nat\<rparr>\<rparr>" "[5]" 5 Map.empty 7 5]
  by (simp add: current_state_peer_def store_get_def store_set_def)


section \<open>Attachment and sticker rules\<close>

lemma attachment_loop_iff:
  "attachment_loop types as \<longleftrightarrow> (\<forall>a\<in>set as. type_value a \<in> set types)"
  by (induction as) auto

text \<open>
  C2. AttachmentTypeRule.check matches exactly when the message has at least one
  attachment and the type of every attachment is among the configured types. A message
  with a photo and a video does not match a rule configured with only \<open>photo\<close>.
\<close>

theorem AttachmentTypeRule_check_iff:
  "(AttachmentTypeRule_check self m \<longleftrightarrow>
      (\<exists>as. attachments m = Some as \<and> as \<noteq> [] \<and>
         (\<forall>a\<in>set as. type_value a \<in> set (attachment_types self)))) \<and>
   \<not> AttachmentTypeRule_check (AttachmentTypeRule_init (One ''photo''))
       \<lparr>message_text = txt,
        attachments = Some [\<lparr>type_value = ''photo'', sticker = None\<rparr>,
                            \<lparr>type_value = ''video'', sticker = None\<rparr>],
        state_peer = sp\<rparr> \<and>
   \<not> AttachmentTypeRule_check (AttachmentTypeRule_init (Many [''photo'']))
       \<lparr>message_text = txt,
        attachments = Some [\<lparr>type_value = ''photo'', sticker = None\<rparr>,
                            \<lparr>type_value = ''video'', sticker = None\<rparr>],
        state_peer = sp\<rparr>"
proof -
  have "AttachmentTypeRule_check self m \<longleftrightarrow>
      (\<exists>as. attachments m = Some as \<and> as \<noteq> [] \<and>
         (\<forall>a\<in>set as. type_value a \<in> set (attachment_types self)))"
    unfolding AttachmentTypeRule_check_def
    by (simp add: attachment_loop_iff split: option.split list.split)
  then show ?thesis
    by (simp add: AttachmentTypeRule_check_def AttachmentTypeRule_init_def)
qed

theorem AttachmentTypeRule_check_iff_witness:
  "type_value \<lparr>type_value = ''photo'', sticker = None\<rparr>
     \<in> set (attachment_types (AttachmentTypeRule_init (Many [''doc'', ''photo'']))) \<and>
   type_value \<lparr>type_value = ''doc'', sticker = None\<rparr>
     \<in> set (attachment_types (AttachmentTypeRule_init (Many [''doc'', ''photo'']))) \<and>
   AttachmentTypeRule_check (AttachmentTypeRule_init (Many [''doc'', ''photo'']))
     \<lparr>message_text = ''x'',
      attachments = Some [\<lparr>type_value = ''photo'', sticker = None\<rparr>,
                          \<lparr>type_value = ''doc'', sticker = None\<rparr>],
      state_peer = None :: nat state_peer option\<rparr>"
proof -
  let ?R = "AttachmentTypeRule_init (Many [''doc'', ''photo''])"
  let ?M = "\<lparr>message_text = ''x'',
      attachments = Some [\<lparr>type_value = ''photo'', sticker = None\<rparr>,
                          \<lparr>type_value = ''doc'', sticker = None\<rparr>],
      state_peer = None :: nat state_peer option\<rparr>"
  have "AttachmentTypeRule_check ?R ?M \<longleftrightarrow>
      (\<exists>as. attachments ?M = Some as \<and> as \<noteq> [] \<and>
         (\<forall>a\<in>set as. type_value a \<in> set (attachment_types ?R)))"
    by (rule conjunct1 [OF AttachmentTypeRule_check_iff])
  then show ?thesis
    by (simp add: AttachmentTypeRule_init_def)
qed

text \<open>
  C7. What StickerRule does when it is configured with the boolean \<^verbatim>\<open>True\<close>: the
  constructor wraps the value into the list \<^verbatim>\<open>[True]\<close>, which is not empty, and the
  membership test compares the sticker id with \<^verbatim>\<open>True\<close>, that is with \<open>1\<close>. The rule
  then matches exactly the messages whose first attachment is the sticker with id \<open>1\<close>; a
  message whose first attachment is the sticker with id \<open>2\<close> is not matched, while the
  rule configured with the empty list matches it.
\<close>

theorem StickerRule_True_matches_only_id_1:
  "(StickerRule_check (StickerRule_init (One (PyBool True))) m \<longleftrightarrow>
      (\<exists>a rest s. attachments m = Some (a # rest) \<and> sticker a = Some s \<and> sticker_id s = 1)) \<and>
   \<not> StickerRule_check (StickerRule_init (One (PyBool True)))
       \<lparr>message_text = txt,
        attachments = Some [\<lparr>type_value = ''sticker'', sticker = Some \<lparr>sticker_id = 2\<rparr>\<rparr>],
        state_peer = sp\<rparr> \<and>
   StickerRule_check (StickerRule_init (Many []))
       \<lparr>message_text = txt,
        attachments = Some [\<lparr>type_value = ''sticker'', sticker = Some \<lparr>sticker_id = 2\<rparr>\<rparr>],
        state_peer = sp\<rparr>"
  by (auto simp: StickerRule_check_def StickerRule_init_def split: option.splits list.splits)

section \<open>The two-row distance is the Levenshtein distance\<close>

lemma subst_cost_sym: "subst_cost x y = subst_cost y x"
  by (simp add: subst_cost_def)

lemma levenshtein_Cons_Cons:
  "levenshtein (x # xs) (y # ys) =
     min (levenshtein xs (y # ys) + 1)
       (min (levenshtein (x # xs) ys + 1) (levenshtein xs ys + subst_cost x y))"
  by (simp add: subst_cost_def)

lemma levenshtein_Nil2: "levenshtein xs [] = length xs"
  by (cases xs) simp_all

lemma levenshtein_sym: "levenshtein xs ys = levenshtein ys xs"
proof (induction xs ys rule: levenshtein.induct)
  case (1 ys)
  then show ?case by (simp add: levenshtein_Nil2)
next
  case (2 x xs)
  then show ?case by simp
next
  case (3 x xs y ys)
  then show ?case by (simp add: min.commute min.left_commute eq_commute)
qed

lemma min_shuffle_single:
  fixes n l d e u v w :: nat
  shows "min (n + w) (min (min (n + v) (min (l + u) (n + d)) + u) (n + u + e)) =
         min (n + w) (min (min (n + v) (min (l + u) (n + e)) + u) (n + u + d))"
  by (simp only: min_add_distrib_left min_add_distrib_right min.assoc min.commute
        min.left_commute add.assoc add.commute add.left_commute)

lemma min_shuffle_nine:
  fixes a1 a2 a3 b1 b2 b3 c1 c2 c3 d e u :: nat
  shows "min (min (a1 + u) (min (a2 + u) (a3 + d)) + u)
          (min (min (b1 + u) (min (b2 + u) (b3 + d)) + u)
               (min (c1 + u) (min (c2 + u) (c3 + d)) + e)) =
         min (min (a1 + u) (min (b1 + u) (c1 + e)) + u)
          (min (min (a2 + u) (min (b2 + u) (c2 + e)) + u)
               (min (a3 + u) (min (b3 + u) (c3 + e)) + d))"
  by (simp only: min_add_distrib_left min_add_distrib_right min.assoc min.commute
        min.left_commute add.assoc add.commute add.left_commute)

lemma levenshtein_single_snoc:
  "levenshtein [x] (ys @ [y]) =
     min (length ys + 2) (min (levenshtein [x] ys + 1) (length ys + subst_cost x y))"
proof (induction ys)
  case Nil
  show ?case by (simp add: subst_cost_def)
next
  case (Cons y' ys)
  have "levenshtein [x] ((y' # ys) @ [y]) =
      min (length ys + 3) (min (levenshtein [x] (ys @ [y]) + 1) (length ys + 1 + subst_cost x y'))"
    by (simp add: levenshtein_Cons_Cons del: levenshtein.simps(3))
  also have "\<dots> = min (length ys + 3)
      (min (min (length ys + 2) (min (levenshtein [x] ys + 1) (length ys + subst_cost x y)) + 1)
           (length ys + 1 + subst_cost x y'))"
    by (simp only: Cons.IH)
  also have "\<dots> = min (length ys + 3)
      (min (min (length ys + 2) (min (levenshtein [x] ys + 1) (length ys + subst_cost x y')) + 1)
           (length ys + 1 + subst_cost x y))"
    by (rule min_shuffle_single)
  also have "\<dots> = min (length (y' # ys) + 2)
      (min (levenshtein [x] (y' # ys) + 1) (length (y' # ys) + subst_cost x y))"
    by (simp add: levenshtein_Cons_Cons del: levenshtein.simps(3))
  finally show ?case .
qed


lemma levenshtein_snoc:
  "levenshtein (xs @ [x]) (ys @ [y]) =
     min (levenshtein xs (ys @ [y]) + 1)
       (min (levenshtein (xs @ [x]) ys + 1) (levenshtein xs ys + subst_cost x y))"
proof (induction xs ys arbitrary: x y rule: levenshtein.induct)
  case (1 ys)
  show ?case using levenshtein_single_snoc [of x ys y] by simp
next
  case (2 x' xs)
  have s: "levenshtein [y] (x' # xs) = levenshtein (x' # xs) [y]"
    by (rule levenshtein_sym)
  have "levenshtein ((x' # xs) @ [x]) ([] @ [y]) = levenshtein [y] ((x' # xs) @ [x])"
    by (simp only: append_Nil levenshtein_sym [of _ "[y]"])
  also have "\<dots> = min (length (x' # xs) + 2)
       (min (levenshtein [y] (x' # xs) + 1) (length (x' # xs) + subst_cost y x))"
    by (rule levenshtein_single_snoc)
  also have "\<dots> = min (levenshtein (x' # xs) [y] + 1)
       (min (length (x' # xs) + 2) (length (x' # xs) + subst_cost x y))"
    unfolding s subst_cost_sym [of y x] by (simp only: min.commute min.left_commute)
  also have "\<dots> = min (levenshtein (x' # xs) ([] @ [y]) + 1)
       (min (levenshtein ((x' # xs) @ [x]) [] + 1) (levenshtein (x' # xs) [] + subst_cost x y))"
    by (simp add: levenshtein_Nil2 del: levenshtein.simps(3))
  finally show ?case .
next
  case (3 x' xs y' ys)
  let ?d = "subst_cost x y" and ?e = "subst_cost x' y'"
  have "levenshtein ((x' # xs) @ [x]) ((y' # ys) @ [y]) =
      min (levenshtein (xs @ [x]) ((y' # ys) @ [y]) + 1)
       (min (levenshtein ((x' # xs) @ [x]) (ys @ [y]) + 1)
            (levenshtein (xs @ [x]) (ys @ [y]) + ?e))"
    by (simp add: levenshtein_Cons_Cons del: levenshtein.simps(3))
  also have "\<dots> =
      min (min (levenshtein xs ((y' # ys) @ [y]) + 1)
            (min (levenshtein (xs @ [x]) (y' # ys) + 1) (levenshtein xs (y' # ys) + ?d)) + 1)
       (min (min (levenshtein (x' # xs) (ys @ [y]) + 1)
              (min (levenshtein ((x' # xs) @ [x]) ys + 1) (levenshtein (x' # xs) ys + ?d)) + 1)
            (min (levenshtein xs (ys @ [y]) + 1)
              (min (levenshtein (xs @ [x]) ys + 1) (levenshtein xs ys + ?d)) + ?e))"
    by (simp only: "3.IH")
  also have "\<dots> =
      min (min (levenshtein xs ((y' # ys) @ [y]) + 1)
            (min (levenshtein (x' # xs) (ys @ [y]) + 1) (levenshtein xs (ys @ [y]) + ?e)) + 1)
       (min (min (levenshtein (xs @ [x]) (y' # ys) + 1)
              (min (levenshtein ((x' # xs) @ [x]) ys + 1) (levenshtein (xs @ [x]) ys + ?e)) + 1)
            (min (levenshtein xs (y' # ys) + 1)
              (min (levenshtein (x' # xs) ys + 1) (levenshtein xs ys + ?e)) + ?d))"
    by (rule min_shuffle_nine)
  also have "\<dots> =
      min (levenshtein (x' # xs) ((y' # ys) @ [y]) + 1)
       (min (levenshtein ((x' # xs) @ [x]) (y' # ys) + 1)
            (levenshtein (x' # xs) (y' # ys) + ?d))"
    by (simp add: levenshtein_Cons_Cons del: levenshtein.simps(3))
  finally show ?case .
qed


lemma lev_table_0: "i \<le> length b \<Longrightarrow> lev_table a b i 0 = i"
  by (simp add: lev_table_def)

lemma lev_table_row0: "j \<le> length a \<Longrightarrow> lev_table a b 0 j = j"
  by (simp add: lev_table_def levenshtein_Nil2)

lemma lev_table_Suc:
  assumes "j < length a" "i < length b"
  shows "lev_table a b (Suc i) (Suc j) =
     min (lev_table a b i (Suc j) + 1)
       (min (lev_table a b (Suc i) j + 1)
            (if a ! j \<noteq> b ! i then lev_table a b i j + 1 else lev_table a b i j))"
proof -
  have "lev_table a b (Suc i) (Suc j) =
      min (lev_table a b (Suc i) j + 1)
        (min (lev_table a b i (Suc j) + 1) (lev_table a b i j + subst_cost (a ! j) (b ! i)))"
    using assms by (simp only: lev_table_def take_Suc_conv_app_nth levenshtein_snoc)
  also have "\<dots> = min (lev_table a b i (Suc j) + 1)
       (min (lev_table a b (Suc i) j + 1) (lev_table a b i j + subst_cost (a ! j) (b ! i)))"
    by (simp only: min.left_commute)
  finally show ?thesis by (simp add: subst_cost_def)
qed

lemma distance_cell_length [simp]:
  "length (distance_cell a c prev j cur) = length cur"
  by (simp add: distance_cell_def Let_def)

lemma inner_loop:
  assumes n: "length a = n" and i: "i < length b"
    and prev: "length prev = Suc n" "\<forall>j\<le>n. prev ! j = lev_table a b i j"
  shows "k \<le> n \<Longrightarrow>
     length (fold (distance_cell a (b ! i) prev) [1..<k + 1] (Suc i # replicate n 0)) = Suc n \<and>
     (\<forall>j\<le>k. fold (distance_cell a (b ! i) prev) [1..<k + 1] (Suc i # replicate n 0) ! j =
        lev_table a b (Suc i) j)"
proof (induction k)
  case 0
  then show ?case using i by (simp add: lev_table_0)
next
  case (Suc k)
  let ?row = "fold (distance_cell a (b ! i) prev) [1..<k + 1] (Suc i # replicate n 0)"
  from Suc have len: "length ?row = Suc n" and cells: "\<forall>j\<le>k. ?row ! j = lev_table a b (Suc i) j"
    by simp_all
  have upt: "[1..<Suc k + 1] = [1..<k + 1] @ [Suc k]" by simp
  have step: "fold (distance_cell a (b ! i) prev) [1..<Suc k + 1] (Suc i # replicate n 0) =
      distance_cell a (b ! i) prev (Suc k) ?row"
    unfolding upt by simp
  have kn: "k < n" using Suc.prems by simp
  have new: "distance_cell a (b ! i) prev (Suc k) ?row = ?row[Suc k := lev_table a b (Suc i) (Suc k)]"
    using kn n i prev(2) cells
    by (simp add: distance_cell_def Let_def lev_table_Suc)
  show ?case
    unfolding step new using len cells kn
    by (auto simp: nth_list_update le_Suc_eq)
qed

lemma distance_row_correct:
  assumes n: "length a = n" and i: "i < length b"
    and prev: "length prev = Suc n" "\<forall>j\<le>n. prev ! j = lev_table a b i j"
  shows "length (distance_row a b n (Suc i) prev) = Suc n \<and>
     (\<forall>j\<le>n. distance_row a b n (Suc i) prev ! j = lev_table a b (Suc i) j)"
  using inner_loop [OF n i prev, of n] by (simp add: distance_row_def Let_def)

lemma outer_loop:
  assumes n: "length a = n"
  shows "m \<le> length b \<Longrightarrow>
     length (fold (distance_row a b n) [1..<m + 1] [0..<n + 1]) = Suc n \<and>
     (\<forall>j\<le>n. fold (distance_row a b n) [1..<m + 1] [0..<n + 1] ! j = lev_table a b m j)"
proof (induction m)
  case 0
  have "\<forall>j\<le>n. [0..<n + 1] ! j = lev_table a b 0 j"
    using n by (auto simp: lev_table_row0 simp del: upt_Suc)
  then show ?case by simp
next
  case (Suc m)
  have upt: "[1..<Suc m + 1] = [1..<m + 1] @ [Suc m]" by simp
  from Suc have m: "m < length b" by simp
  from Suc have prev: "length (fold (distance_row a b n) [1..<m + 1] [0..<n + 1]) = Suc n"
      "\<forall>j\<le>n. fold (distance_row a b n) [1..<m + 1] [0..<n + 1] ! j = lev_table a b m j"
    by simp_all
  show ?case
    unfolding upt fold_append comp_apply using distance_row_correct [OF n m prev] by simp
qed

lemma distance_ordered:
  "fold (distance_row a b (length a)) [1..<length b + 1] [0..<length a + 1] ! length a =
     levenshtein a b"
  using outer_loop [of a "length a" "length b" b] by (simp add: lev_table_def)

lemma distance_levenshtein: "distance a b = levenshtein a b"
proof (cases "length a > length b")
  case True
  then have "distance a b = levenshtein b a"
    using distance_ordered [of b a] by (simp add: distance_def Let_def)
  then show ?thesis by (simp add: levenshtein_sym)
next
  case False
  then show ?thesis
    using distance_ordered [of a b] by (simp add: distance_def Let_def)
qed

lemma levenstein_loop_iff:
  "levenstein_loop txt d texts \<longleftrightarrow> (\<exists>t\<in>set texts. int (distance txt t) \<le> d)"
  by (induction texts) auto

lemma distance_kitten: "distance ''kitten'' ''sitting'' = 3"
  by code_simp

lemma distance_abc: "distance ''abc'' ''abc'' = 0"
  by code_simp

text \<open>
  C3. \<^verbatim>\<open>LevensteinRule.distance\<close> computes the Levenshtein distance, is symmetric, and
  gives \<open>0\<close> for two empty strings, \<open>0\<close> for \<open>abc\<close> and \<open>abc\<close>, and \<open>3\<close> for \<open>kitten\<close> and
  \<open>sitting\<close>; \<^verbatim>\<open>LevensteinRule.check\<close> matches exactly when some configured text is at
  distance at most \<^verbatim>\<open>max_distance\<close> from the message text.
\<close>

theorem LevensteinRule_distance_check:
  "distance a b = levenshtein a b \<and>
   distance a b = distance b a \<and>
   distance ([] :: 'c list) [] = 0 \<and>
   distance ''abc'' ''abc'' = 0 \<and>
   distance ''kitten'' ''sitting'' = 3 \<and>
   (LevensteinRule_check self m \<longleftrightarrow>
      (\<exists>t\<in>set (levenstein_texts self). int (distance (message_text m) t) \<le> max_distance self))"
proof -
  have "distance a b = distance b a"
    by (simp only: distance_levenshtein levenshtein_sym [of a b])
  moreover have "distance ([] :: 'c list) [] = 0"
    by (simp add: distance_levenshtein)
  ultimately show ?thesis
    by (simp add: distance_levenshtein [of a b] distance_kitten distance_abc
        LevensteinRule_check_def levenstein_loop_iff)
qed

theorem LevensteinRule_distance_check_witness:
  "(\<exists>t\<in>set (levenstein_texts (LevensteinRule_init (Many [''hello'', ''sitting'']) 3)).
      int (distance ''kitten'' t) \<le> max_distance (LevensteinRule_init (Many [''hello'', ''sitting'']) 3)) \<and>
   LevensteinRule_check (LevensteinRule_init (Many [''hello'', ''sitting'']) 3)
     \<lparr>message_text = ''kitten'', attachments = None, state_peer = None :: nat state_peer option\<rparr>"
proof -
  let ?R = "LevensteinRule_init (Many [''hello'', ''sitting'']) 3"
  let ?M = "\<lparr>message_text = ''kitten'', attachments = None,
             state_peer = None :: nat state_peer option\<rparr>"
  have near: "\<exists>t\<in>set (levenstein_texts ?R). int (distance ''kitten'' t) \<le> max_distance ?R"
    by (simp add: LevensteinRule_init_def distance_kitten)
  have "LevensteinRule_check ?R ?M \<longleftrightarrow>
      (\<exists>t\<in>set (levenstein_texts ?R). int (distance (message_text ?M) t) \<le> max_distance ?R)"
    using LevensteinRule_distance_check [of "''kitten''" "''sitting''" ?R ?M] by blast
  with near show ?thesis by simp
qed

section \<open>The polling loop\<close>

lemma reacquires_Nil [simp]: "reacquires []"
  by (simp add: reacquires_def)

lemma reacquires_Cons:
  "reacquires (a # trace) \<longleftrightarrow>
     (\<forall>s event. a = GetEvent s (Inr event) \<and> failed event \<longrightarrow>
        (\<exists>r post'. trace = GetServer r # post')) \<and> reacquires trace"
  (is "?L \<longleftrightarrow> ?H \<and> ?T")
proof (intro iffI conjI)
  assume L: ?L
  show ?H
  proof (intro allI impI)
    fix s event
    assume "a = GetEvent s (Inr event) \<and> failed event"
    then have "a # trace = [] @ GetEvent s (Inr event) # trace \<and> failed event" by simp
    with L show "\<exists>r post'. trace = GetServer r # post'"
      unfolding reacquires_def by blast
  qed
  show ?T
    unfolding reacquires_def
  proof (intro allI impI)
    fix pre s event post
    assume "trace = pre @ GetEvent s (Inr event) # post \<and> failed event"
    then have "a # trace = (a # pre) @ GetEvent s (Inr event) # post \<and> failed event" by simp
    with L show "\<exists>r post'. post = GetServer r # post'"
      unfolding reacquires_def by blast
  qed
next
  assume HT: "?H \<and> ?T"
  show ?L
    unfolding reacquires_def
  proof (intro allI impI)
    fix pre s event post
    assume A: "a # trace = pre @ GetEvent s (Inr event) # post \<and> failed event"
    show "\<exists>r post'. post = GetServer r # post'"
    proof (cases pre)
      case Nil
      with A have "a = GetEvent s (Inr event) \<and> failed event" "trace = post" by simp_all
      with HT show ?thesis by blast
    next
      case (Cons p pre')
      with A have "trace = pre' @ GetEvent s (Inr event) # post \<and> failed event" by simp
      with HT show ?thesis unfolding reacquires_def by blast
    qed
  qed
qed

lemma polls_fresh_Nil [simp]: "polls_fresh []"
  by (simp add: polls_fresh_def)

lemma polls_fresh_Cons:
  "polls_fresh (a # trace) \<longleftrightarrow>
     (\<forall>s event server' x post.
        a = GetEvent s (Inr event) \<and> failed event \<and> trace = GetServer (Inr server') # x # post \<longrightarrow>
        (\<exists>res. x = GetEvent server' res)) \<and> polls_fresh trace"
  (is "?L \<longleftrightarrow> ?H \<and> ?T")
proof (intro iffI conjI)
  assume L: ?L
  show ?H
  proof (intro allI impI)
    fix s event server' x post
    assume "a = GetEvent s (Inr event) \<and> failed event \<and> trace = GetServer (Inr server') # x # post"
    then have "a # trace = [] @ GetEvent s (Inr event) # GetServer (Inr server') # x # post
        \<and> failed event"
      by simp
    with L show "\<exists>res. x = GetEvent server' res"
      unfolding polls_fresh_def by blast
  qed
  show ?T
    unfolding polls_fresh_def
  proof (intro allI impI)
    fix pre s event server' x post
    assume "trace = pre @ GetEvent s (Inr event) # GetServer (Inr server') # x # post \<and> failed event"
    then have "a # trace = (a # pre) @ GetEvent s (Inr event) # GetServer (Inr server') # x # post
        \<and> failed event"
      by simp
    with L show "\<exists>res. x = GetEvent server' res"
      unfolding polls_fresh_def by blast
  qed
next
  assume HT: "?H \<and> ?T"
  show ?L
    unfolding polls_fresh_def
  proof (intro allI impI)
    fix pre s event server' x post
    assume A: "a # trace = pre @ GetEvent s (Inr event) # GetServer (Inr server') # x # post
        \<and> failed event"
    show "\<exists>res. x = GetEvent server' res"
    proof (cases pre)
      case Nil
      with A have "a = GetEvent s (Inr event) \<and> failed event
          \<and> trace = GetServer (Inr server') # x # post"
        by simp
      with HT show ?thesis by blast
    next
      case (Cons p pre')
      with A have "trace = pre' @ GetEvent s (Inr event) # GetServer (Inr server') # x # post
          \<and> failed event"
        by simp
      with HT show ?thesis unfolding polls_fresh_def by blast
    qed
  qed
qed

lemma listen_loop_Cons_fst:
  "fst (listen_loop (env # rest) server) =
     (if stop env then []
      else case snd (listen_iteration env server) of
             Inl e \<Rightarrow> fst (listen_iteration env server)
           | Inr server' \<Rightarrow> fst (listen_iteration env server) @ fst (listen_loop rest server'))"
  by (simp split: prod.splits sum.splits)

lemma listen_iteration_first:
  "\<exists>rest. fst (listen_iteration env server) = GetEvent server (get_event_result env) # rest"
  by (auto simp: listen_iteration_def try_body_def split: sum.splits option.splits)

lemma listen_loop_first:
  "fst (listen_loop script server) = x # post \<Longrightarrow> \<exists>res. x = GetEvent server res"
proof (cases script)
  case Nil
  then show "fst (listen_loop script server) = x # post \<Longrightarrow> ?thesis" by simp
next
  case (Cons env rest)
  obtain tl where "fst (listen_iteration env server) = GetEvent server (get_event_result env) # tl"
    using listen_iteration_first by blast
  then show "fst (listen_loop script server) = x # post \<Longrightarrow> ?thesis"
    unfolding Cons listen_loop_Cons_fst by (auto split: if_splits sum.splits)
qed

lemma reacquires_iteration_append:
  "reacquires trace \<Longrightarrow> reacquires (fst (listen_iteration env server) @ trace)"
  by (auto simp: listen_iteration_def try_body_def reacquires_Cons
      split: sum.splits option.splits)

lemma polls_fresh_iteration_append:
  assumes "polls_fresh trace"
    and "\<And>server' x post. snd (listen_iteration env server) = Inr server' \<Longrightarrow> trace = x # post \<Longrightarrow>
           \<exists>res. x = GetEvent server' res"
  shows "polls_fresh (fst (listen_iteration env server) @ trace)"
  using assms
  by (auto simp: listen_iteration_def try_body_def polls_fresh_Cons
      split: sum.splits option.splits)

lemma listen_loop_reacquires: "reacquires (fst (listen_loop script server))"
proof (induction script arbitrary: server)
  case Nil
  show ?case by simp
next
  case (Cons env rest)
  show ?case
    unfolding listen_loop_Cons_fst
    using reacquires_iteration_append [OF Cons.IH] reacquires_iteration_append [of "[]" env server]
    by (simp split: sum.splits)
qed

lemma listen_loop_polls_fresh: "polls_fresh (fst (listen_loop script server))"
proof (induction script arbitrary: server)
  case Nil
  show ?case by simp
next
  case (Cons env rest)
  have last: "polls_fresh (fst (listen_iteration env server))"
    using polls_fresh_iteration_append [of "[]" env server] by simp
  have more: "polls_fresh (fst (listen_iteration env server) @ fst (listen_loop rest server'))"
    if "snd (listen_iteration env server) = Inr server'" for server'
    using that by (intro polls_fresh_iteration_append Cons.IH) (auto dest: listen_loop_first)
  show ?case
    unfolding listen_loop_Cons_fst using last more by (simp split: sum.splits)
qed

lemma listen_loop_yielded:
  "event \<in> set (yielded (fst (listen_loop script server))) \<Longrightarrow> \<not> failed event"
proof (induction script arbitrary: server)
  case Nil
  then show ?case by simp
next
  case (Cons env rest)
  from Cons.prems show ?case
    unfolding listen_loop_Cons_fst
    by (auto simp: listen_iteration_def try_body_def
        split: if_splits sum.splits option.splits dest: Cons.IH)
qed


lemma listen_fst:
  "fst (listen first_server script) =
     (case first_server of
        Inl e \<Rightarrow> [GetServer (Inl e)]
      | Inr server \<Rightarrow> GetServer (Inr server) # fst (listen_loop script server))"
  by (simp add: listen_def split: sum.splits prod.splits)

lemma listen_reacquires: "reacquires (fst (listen first_server script))"
  unfolding listen_fst
  by (simp add: reacquires_Cons listen_loop_reacquires split: sum.splits)

lemma listen_polls_fresh: "polls_fresh (fst (listen first_server script))"
  unfolding listen_fst
  by (simp add: polls_fresh_Cons listen_loop_polls_fresh split: sum.splits)

lemma listen_yielded:
  "event \<in> set (yielded (fst (listen first_server script))) \<Longrightarrow> \<not> failed event"
  unfolding listen_fst
  by (auto split: sum.splits dest: listen_loop_yielded)

text \<open>
  C4. When a poll response signals an expired session (a truthy \<^verbatim>\<open>failed\<close> field), the
  iteration yields nothing, the action right after the poll is \<^verbatim>\<open>get_server\<close>, the error
  handler is called only if \<^verbatim>\<open>get_server\<close> itself raises (with that exception), and the
  loop goes on with the descriptor \<^verbatim>\<open>get_server\<close> returned. Over a whole run of
  \<^verbatim>\<open>listen\<close>: every poll that reported an expired session is directly followed by
  \<^verbatim>\<open>get_server\<close>; when that call returned a descriptor, the next poll uses it; and no
  yielded event signals an expired session.
\<close>

theorem listen_session_expiry:
  "(get_event_result env = Inr event \<and> failed event \<longrightarrow>
      yielded (fst (listen_iteration env server)) = [] \<and>
      handled (fst (listen_iteration env server)) =
        (case get_server_result env of Inl e \<Rightarrow> [e] | Inr server' \<Rightarrow> []) \<and>
      (\<exists>rest. fst (listen_iteration env server) =
         GetEvent server (Inr event) # GetServer (get_server_result env) # rest) \<and>
      (\<forall>server'. get_server_result env = Inr server' \<longrightarrow>
         snd (listen_iteration env server) = Inr server')) \<and>
   (listen first_server script = (trace, st) \<longrightarrow>
      (\<forall>pre s ev post. trace = pre @ GetEvent s (Inr ev) # post \<and> failed ev \<longrightarrow>
         (\<exists>r post'. post = GetServer r # post')) \<and>
      (\<forall>pre s ev server' x post.
         trace = pre @ GetEvent s (Inr ev) # GetServer (Inr server') # x # post \<and> failed ev \<longrightarrow>
         (\<exists>res. x = GetEvent server' res)) \<and>
      (\<forall>ev\<in>set (yielded trace). \<not> failed ev))"
proof (intro conjI impI)
  assume "listen first_server script = (trace, st)"
  then have tr: "trace = fst (listen first_server script)" by simp
  show "\<forall>pre s ev post. trace = pre @ GetEvent s (Inr ev) # post \<and> failed ev \<longrightarrow>
         (\<exists>r post'. post = GetServer r # post')"
    using listen_reacquires [of first_server script] unfolding tr reacquires_def .
  show "\<forall>pre s ev server' x post.
         trace = pre @ GetEvent s (Inr ev) # GetServer (Inr server') # x # post \<and> failed ev \<longrightarrow>
         (\<exists>res. x = GetEvent server' res)"
    using listen_polls_fresh [of first_server script] unfolding tr polls_fresh_def .
  show "\<forall>ev\<in>set (yielded trace). \<not> failed ev"
    unfolding tr using listen_yielded by blast
qed (auto simp: listen_iteration_def try_body_def split: sum.splits option.splits)

theorem listen_session_expiry_witness:
  "get_event_result
     \<lparr>stop = False, get_event_result = Inr [''failed'' \<mapsto> JInt 2],
      get_server_result = Inr [''server'' \<mapsto> JStr ''host'', ''key'' \<mapsto> JStr ''k2'', ''ts'' \<mapsto> JInt 9],
      handle_result = None :: nat exn option\<rparr> = Inr [''failed'' \<mapsto> JInt 2] \<and>
   failed [''failed'' \<mapsto> JInt 2] \<and>
   yielded (fst (listen_iteration
     \<lparr>stop = False, get_event_result = Inr [''failed'' \<mapsto> JInt 2],
      get_server_result = Inr [''server'' \<mapsto> JStr ''host'', ''key'' \<mapsto> JStr ''k2'', ''ts'' \<mapsto> JInt 9],
      handle_result = None :: nat exn option\<rparr>
     [''server'' \<mapsto> JStr ''host'', ''key'' \<mapsto> JStr ''k'', ''ts'' \<mapsto> JInt 1])) = [] \<and>
   snd (listen_iteration
     \<lparr>stop = False, get_event_result = Inr [''failed'' \<mapsto> JInt 2],
      get_server_result = Inr [''server'' \<mapsto> JStr ''host'', ''key'' \<mapsto> JStr ''k2'', ''ts'' \<mapsto> JInt 9],
      handle_result = None :: nat exn option\<rparr>
     [''server'' \<mapsto> JStr ''host'', ''key'' \<mapsto> JStr ''k'', ''ts'' \<mapsto> JInt 1]) =
     Inr [''server'' \<mapsto> JStr ''host'', ''key'' \<mapsto> JStr ''k2'', ''ts'' \<mapsto> JInt 9]"
proof -
  let ?env = "\<lparr>stop = False, get_event_result = Inr [''failed'' \<mapsto> JInt 2],
      get_server_result = Inr [''server'' \<mapsto> JStr ''host'', ''key'' \<mapsto> JStr ''k2'', ''ts'' \<mapsto> JInt 9],
      handle_result = None :: nat exn option\<rparr>"
  have expired: "get_event_result ?env = Inr [''failed'' \<mapsto> JInt 2] \<and> failed [''failed'' \<mapsto> JInt 2]"
    by (simp add: failed_def)
  have fresh: "get_server_result ?env =
      Inr [''server'' \<mapsto> JStr ''host'', ''key'' \<mapsto> JStr ''k2'', ''ts'' \<mapsto> JInt 9]"
    by simp
  show ?thesis
    using listen_session_expiry [of ?env "[''failed'' \<mapsto> JInt 2]"] expired fresh by blast
qed

lemma listen_loop_Cons:
  "listen_loop (env # rest) server =
     (if stop env then ([], Stopped)
      else case snd (listen_iteration env server) of
             Inl e \<Rightarrow> (fst (listen_iteration env server), Propagated e)
           | Inr server' \<Rightarrow>
               (fst (listen_iteration env server) @ fst (listen_loop rest server'),
                snd (listen_loop rest server')))"
  by (simp split: prod.splits sum.splits)

text \<open>
  C5, as the code has it. In an iteration in which the transport raises \<open>e\<close>, the error
  handler is called exactly once, with \<open>e\<close>, and nothing is yielded. What follows
  depends on the handler and on the stop flag: when the handler returns, the iteration
  ends with the descriptor it started with, and the next loop test either finds the stop
  flag unset, and then the next action is a poll with that same descriptor, or finds it
  set, and then the loop ends without a further poll; when the handler itself raises,
  that exception leaves \<^verbatim>\<open>listen\<close> and the loop ends.
\<close>

theorem listen_transport_error:
  assumes "transport_raises env e"
  shows "handled (fst (listen_iteration env server)) = [e] \<and>
     yielded (fst (listen_iteration env server)) = [] \<and>
     (handle_result env = None \<longrightarrow>
        snd (listen_iteration env server) = Inr server \<and>
        (\<not> stop env \<and> \<not> stop env2 \<longrightarrow>
           (\<exists>acts rest.
              fst (listen_loop (env # env2 # script) server) =
                acts @ Handle e None # GetEvent server (get_event_result env2) # rest \<and>
              handled acts = [] \<and> yielded acts = [])) \<and>
        (\<not> stop env \<and> stop env2 \<longrightarrow>
           listen_loop (env # env2 # script) server =
             (fst (listen_iteration env server), Stopped))) \<and>
     (\<forall>e'. handle_result env = Some e' \<longrightarrow>
        snd (listen_iteration env server) = Inl e' \<and>
        (\<not> stop env \<longrightarrow>
           listen_loop (env # script) server =
             (fst (listen_iteration env server), Propagated e')))"
proof -
  obtain acts where it: "fst (listen_iteration env server) = acts @ [Handle e (handle_result env)]"
      "handled acts = []" "yielded acts = []"
      "handle_result env = None \<longrightarrow> snd (listen_iteration env server) = Inr server"
      "\<forall>e'. handle_result env = Some e' \<longrightarrow> snd (listen_iteration env server) = Inl e'"
    using assms
    by (auto simp: transport_raises_def listen_iteration_def try_body_def
        split: sum.splits option.splits)
  obtain rest2 where second:
      "fst (listen_iteration env2 server) = GetEvent server (get_event_result env2) # rest2"
    using listen_iteration_first by blast
  have h: "handled (acts @ [Handle e (handle_result env)]) = [e]"
      "yielded (acts @ [Handle e (handle_result env)]) = []"
    using it(2,3) by (induction acts rule: handled.induct) simp_all
  have loop: "\<exists>rest. fst (listen_loop (env # env2 # script) server) =
      acts @ Handle e None # GetEvent server (get_event_result env2) # rest"
    if "handle_result env = None" "\<not> stop env" "\<not> stop env2"
    unfolding listen_loop_Cons_fst using that it(1,4) second
    by (auto split: sum.splits)
  have stopped: "listen_loop (env # env2 # script) server =
      (fst (listen_iteration env server), Stopped)"
    if "handle_result env = None" "\<not> stop env" "stop env2"
    using that it(4) by (simp add: listen_loop_Cons del: listen_loop.simps)
  have propagated: "listen_loop (env # script) server =
      (fst (listen_iteration env server), Propagated e')"
    if "handle_result env = Some e'" "\<not> stop env" for e'
    using that it(5) by (simp add: listen_loop_Cons del: listen_loop.simps)
  show ?thesis
    using it h loop stopped propagated by auto
qed

theorem listen_transport_error_witness:
  "transport_raises
     \<lparr>stop = False, get_event_result = Inl (Raised (0::nat)),
      get_server_result = Inl (Raised 1), handle_result = None\<rparr> (Raised 0) \<and>
   handled (fst (listen_iteration
     \<lparr>stop = False, get_event_result = Inl (Raised (0::nat)),
      get_server_result = Inl (Raised 1), handle_result = None\<rparr>
     [''server'' \<mapsto> JStr ''host'', ''key'' \<mapsto> JStr ''k'', ''ts'' \<mapsto> JInt 1])) = [Raised 0] \<and>
   snd (listen_iteration
     \<lparr>stop = False, get_event_result = Inl (Raised (0::nat)),
      get_server_result = Inl (Raised 1), handle_result = None\<rparr>
     [''server'' \<mapsto> JStr ''host'', ''key'' \<mapsto> JStr ''k'', ''ts'' \<mapsto> JInt 1]) =
     Inr [''server'' \<mapsto> JStr ''host'', ''key'' \<mapsto> JStr ''k'', ''ts'' \<mapsto> JInt 1]"
proof -
  let ?env = "\<lparr>stop = False, get_event_result = Inl (Raised (0::nat)),
      get_server_result = Inl (Raised 1), handle_result = None\<rparr>"
  have raises: "transport_raises ?env (Raised 0)"
    by (simp add: transport_raises_def)
  have returns: "handle_result ?env = None"
    by simp
  note once = listen_transport_error [OF raises, THEN conjunct1]
  note same = listen_transport_error [OF raises, THEN conjunct2, THEN conjunct2, THEN conjunct1]
  show ?thesis
    using once same raises returns by blast
qed

text \<open>
  The claim C5 as stated fails: it promises that the loop continues after every
  iteration in which the transport raises. When the error handler raises in turn, its
  exception leaves \<^verbatim>\<open>listen\<close>: the script holds a second iteration, but the run ends
  after the handler call, with no further poll. When the handler returns and the stop
  flag is set at the next loop test, the loop ends as well.
\<close>

theorem listen_ends_when_handler_raises:
  "transport_raises
     \<lparr>stop = False, get_event_result = Inl (Raised (0::nat)),
      get_server_result = Inl (Raised 1), handle_result = Some (Raised 7)\<rparr> (Raised 0) \<and>
   listen_loop
     [\<lparr>stop = False, get_event_result = Inl (Raised (0::nat)),
       get_server_result = Inl (Raised 1), handle_result = Some (Raised 7)\<rparr>,
      \<lparr>stop = False, get_event_result = Inl (Raised 0),
       get_server_result = Inl (Raised 1), handle_result = None\<rparr>]
     [''server'' \<mapsto> JStr ''host'', ''key'' \<mapsto> JStr ''k'', ''ts'' \<mapsto> JInt 1] =
     ([GetEvent [''server'' \<mapsto> JStr ''host'', ''key'' \<mapsto> JStr ''k'', ''ts'' \<mapsto> JInt 1]
         (Inl (Raised 0)),
       Handle (Raised 0) (Some (Raised 7))],
      Propagated (Raised 7)) \<and>
   listen_loop
     [\<lparr>stop = False, get_event_result = Inl (Raised (0::nat)),
       get_server_result = Inl (Raised 1), handle_result = None\<rparr>,
      \<lparr>stop = True, get_event_result = Inl (Raised 0),
       get_server_result = Inl (Raised 1), handle_result = None\<rparr>]
     [''server'' \<mapsto> JStr ''host'', ''key'' \<mapsto> JStr ''k'', ''ts'' \<mapsto> JInt 1] =
     ([GetEvent [''server'' \<mapsto> JStr ''host'', ''key'' \<mapsto> JStr ''k'', ''ts'' \<mapsto> JInt 1]
         (Inl (Raised 0)),
       Handle (Raised 0) None],
      Stopped)"
  by (simp add: transport_raises_def listen_iteration_def try_body_def)

section \<open>The labeler\<close>

lemma load_rule_config [simp]: "rule_config (load self labeler) = rule_config self"
  by (simp add: load_def)

text \<open>
  C6, as the code has it. \<^verbatim>\<open>load\<close> keeps the message-view handlers of the receiving
  labeler as a prefix, in their order, and appends those of the loaded labeler in their
  order; it appends the middlewares of both views in the same way. The raw-event view
  holds one handler per event name: after \<^verbatim>\<open>load\<close> a name registered in the loaded
  labeler maps to that labeler's handler, and every other name keeps the handler it had.
\<close>

theorem load_appends_lists_and_updates_raw_handlers:
  "BotMessageView.handlers (message_view (load R F)) =
     BotMessageView.handlers (message_view R) @ BotMessageView.handlers (message_view F) \<and>
   BotMessageView.middlewares (message_view (load R F)) =
     BotMessageView.middlewares (message_view R) @ BotMessageView.middlewares (message_view F) \<and>
   BotRawEventView.middlewares (raw_event_view (load R F)) =
     BotRawEventView.middlewares (raw_event_view R)
       @ BotRawEventView.middlewares (raw_event_view F) \<and>
   BotRawEventView.handlers (raw_event_view (load R F)) name =
     (case BotRawEventView.handlers (raw_event_view F) name of
        Some h \<Rightarrow> Some h
      | None \<Rightarrow> BotRawEventView.handlers (raw_event_view R) name)"
  by (simp add: load_def map_add_def)

text \<open>
  The claim C6 as stated fails for the raw-event view: a labeler that has a handler for
  the event \<open>message_new\<close> loses it when it loads a labeler with a handler for the same
  event.
\<close>

theorem load_replaces_raw_handler:
  "BotRawEventView.handlers (raw_event_view
     ((fst (BotLabeler_init (0::nat) None (module_store :: nat store)))
       \<lparr>raw_event_view :=
          \<lparr>BotRawEventView.handlers =
             [''message_new'' \<mapsto> BotHandlerBasement (0::nat) (FromFuncHandler (1::nat) ([]::nat list) None)],
           middlewares = ([]::nat list)\<rparr>\<rparr>)) ''message_new'' =
     Some (BotHandlerBasement 0 (FromFuncHandler 1 [] None)) \<and>
   BotRawEventView.handlers (raw_event_view
     (load
       ((fst (BotLabeler_init (0::nat) None (module_store :: nat store)))
          \<lparr>raw_event_view :=
             \<lparr>BotRawEventView.handlers =
                [''message_new'' \<mapsto> BotHandlerBasement (0::nat) (FromFuncHandler (1::nat) ([]::nat list) None)],
              middlewares = ([]::nat list)\<rparr>\<rparr>)
       ((fst (BotLabeler_init (0::nat) None (module_store :: nat store)))
          \<lparr>raw_event_view :=
             \<lparr>BotRawEventView.handlers =
                [''message_new'' \<mapsto> BotHandlerBasement (0::nat) (FromFuncHandler (2::nat) ([]::nat list) None)],
              middlewares = ([]::nat list)\<rparr>\<rparr>))) ''message_new'' =
     Some (BotHandlerBasement 0 (FromFuncHandler 2 [] None)) \<and>
   BotHandlerBasement (0::nat) (FromFuncHandler (2::nat) ([]::nat list) None) \<noteq>
     BotHandlerBasement 0 (FromFuncHandler 1 [] None)"
  by (simp add: load_def BotLabeler_init_def Let_def)

lemma custom_rules_comprehension_unknown:
  "(k, v) \<in> set kwargs \<Longrightarrow> registry k = None \<Longrightarrow>
     \<exists>e. custom_rules_comprehension wc registry config kwargs = Inl e"
  by (induction kwargs) (auto split: option.splits sum.splits)

lemma custom_rules_comprehension_KeyError:
  "(k, v) \<in> set kwargs \<Longrightarrow> registry k = None \<Longrightarrow>
   (\<And>cls val. \<exists>r. wc cls config val = Inr r) \<Longrightarrow>
     \<exists>k'. registry k' = None \<and> custom_rules_comprehension wc registry config kwargs = Inl (KeyError k')"
proof (induction kwargs)
  case Nil
  then show ?case by simp
next
  case (Cons kv kwargs)
  obtain k1 v1 where kv: "kv = (k1, v1)" by (cases kv)
  show ?case
  proof (cases "registry k1")
    case None
    then show ?thesis unfolding kv by auto
  next
    case (Some cls)
    obtain r where r: "wc cls config v1 = Inr r" using Cons.prems(3) by blast
    from Some Cons.prems(1,2) kv have "(k, v) \<in> set kwargs" by auto
    from Cons.IH [OF this Cons.prems(2,3)] obtain k'
      where "registry k' = None"
        "custom_rules_comprehension wc registry config kwargs = Inl (KeyError k')"
      by blast
    then show ?thesis unfolding kv using Some r by auto
  qed
qed

text \<open>
  C8, as the code has it. A registration that passes a custom-rule keyword whose name is
  not in the registry raises when the decorator is applied to the handler function, and
  registers nothing: for \<^verbatim>\<open>message\<close>, \<^verbatim>\<open>chat_message\<close> and \<^verbatim>\<open>private_message\<close>,
  and for \<^verbatim>\<open>raw_event\<close> with at least one event name. When no rule constructor
  raises, the exception is the \<^verbatim>\<open>KeyError\<close> of an unregistered name. \<^verbatim>\<open>raw_event\<close>
  looks the names up inside its loop over the event names: with an empty list of event
  names it looks nothing up, registers nothing and does not raise.
\<close>

theorem unknown_custom_rule_raises_at_registration:
  assumes "(k, v) \<in> set kwargs" and "store (custom_rules self) k = None"
  shows "(\<exists>e. get_custom_rules ext store self kwargs = Inl e) \<and>
     (\<exists>e. message ext rules blocking kwargs func store self = (Some e, self)) \<and>
     (\<exists>e. chat_message ext rules blocking kwargs func store self = (Some e, self)) \<and>
     (\<exists>e. private_message ext rules blocking kwargs func store self = (Some e, self)) \<and>
     (as_list event \<noteq> [] \<longrightarrow>
        (\<exists>e. raw_event ext event dataclass rules kwargs func store self = (Some e, self))) \<and>
     (as_list event = [] \<longrightarrow>
        raw_event ext event dataclass rules kwargs func store self = (None, self)) \<and>
     ((\<forall>cls val. \<exists>r. with_config ext cls (rule_config self) val = Inr r) \<longrightarrow>
        (\<exists>k'. store (custom_rules self) k' = None \<and>
           get_custom_rules ext store self kwargs = Inl (KeyError k')))"
proof -
  obtain e where e: "get_custom_rules ext store self kwargs = Inl e"
    unfolding get_custom_rules_def
    using custom_rules_comprehension_unknown [of k v kwargs "store (custom_rules self)"] assms
    by blast
  have raw: "raw_event ext event dataclass rules kwargs func store self = (Some e, self)"
    if "as_list event \<noteq> []"
    using that e by (cases "as_list event") (simp_all add: raw_event_def)
  have none: "raw_event ext event dataclass rules kwargs func store self = (None, self)"
    if "as_list event = []"
    using that by (simp add: raw_event_def)
  have key: "\<exists>k'. store (custom_rules self) k' = None \<and>
      get_custom_rules ext store self kwargs = Inl (KeyError k')"
    if "\<forall>cls val. \<exists>r. with_config ext cls (rule_config self) val = Inr r"
    unfolding get_custom_rules_def
    using custom_rules_comprehension_KeyError [of k v kwargs "store (custom_rules self)"
        "with_config ext" "rule_config self"] assms that
    by blast
  show ?thesis
    using e raw none key
    by (simp add: message_def chat_message_def private_message_def)
qed

theorem unknown_custom_rule_raises_at_registration_witness:
  "(''nope'', 1::nat) \<in> set [(''nope'', 1)] \<and>
   (module_store :: nat store)
     (custom_rules (fst (BotLabeler_init (0::nat) None (module_store :: nat store))
        :: (nat, nat, nat, nat, nat) BotLabeler)) ''nope'' = None \<and>
   (\<exists>e. message
      (\<lparr>convert_shorten_filter = (\<lambda>r::nat. r),
       with_config = (\<lambda>cls cfg val. Inr val :: nat exn + nat),
       new_PeerRule = (\<lambda>b. 0)\<rparr> :: (nat, nat, nat, nat, nat, nat) collaborators)
      [] True [(''nope'', 1)] (7::nat) (module_store :: nat store)
      (fst (BotLabeler_init (0::nat) None (module_store :: nat store))
         :: (nat, nat, nat, nat, nat) BotLabeler) =
     (Some e, fst (BotLabeler_init (0::nat) None (module_store :: nat store))))"
proof -
  let ?self = "fst (BotLabeler_init (0::nat) None (module_store :: nat store))
      :: (nat, nat, nat, nat, nat) BotLabeler"
  have mem: "(''nope'', 1::nat) \<in> set [(''nope'', 1)]"
    by simp
  have unknown: "(module_store :: nat store) (custom_rules ?self) ''nope'' = None"
    by (simp add: BotLabeler_init_def Let_def module_store_def CUSTOM_RULES_literal_def)
  let ?ext = "\<lparr>convert_shorten_filter = (\<lambda>r::nat. r),
       with_config = (\<lambda>cls cfg val. Inr val :: nat exn + nat),
       new_PeerRule = (\<lambda>b. 0)\<rparr> :: (nat, nat, nat, nat, nat, nat) collaborators"
  note registration = unknown_custom_rule_raises_at_registration
      [where k = "''nope''" and v = "1::nat" and kwargs = "[(''nope'', 1)]"
        and store = "module_store :: nat store" and self = ?self and ext = ?ext
        and rules = "[]" and blocking = True and func = "7::nat", OF mem unknown]
  have "\<exists>e. message ?ext [] True [(''nope'', 1)] (7::nat) (module_store :: nat store) ?self
      = (Some e, ?self)"
    using registration [THEN conjunct2, THEN conjunct1] .
  with mem unknown show ?thesis by blast
qed

text \<open>
  The claim C8 as stated fails for \<^verbatim>\<open>raw_event\<close>: called with an empty list of event
  names and the unregistered keyword \<open>nope\<close>, the decorator returns without raising
  (and leaves the labeler as it was).
\<close>

theorem raw_event_without_event_names_does_not_raise:
  "(module_store :: nat store)
     (custom_rules (fst (BotLabeler_init (0::nat) None (module_store :: nat store)
        :: (nat, nat, nat, nat, nat) BotLabeler \<times> nat store))) ''nope'' = None \<and>
   raw_event example_collaborators (Many []) (0::nat) [] [(''nope'', 1)] (7::nat)
     (module_store :: nat store)
     (fst (BotLabeler_init (0::nat) None (module_store :: nat store)
        :: (nat, nat, nat, nat, nat) BotLabeler \<times> nat store)) =
     (None, fst (BotLabeler_init (0::nat) None (module_store :: nat store)
        :: (nat, nat, nat, nat, nat) BotLabeler \<times> nat store))"
  by (simp add: raw_event_def BotLabeler_init_def Let_def module_store_def
      CUSTOM_RULES_literal_def)

section \<open>The custom-rule registry and the rule configuration\<close>



lemma BotLabeler_init_rule_config:
  "rule_config (fst (BotLabeler_init p kw store)) =
     [''vbml_flags'' \<mapsto> RegexFlag re_MULTILINE, ''vbml_patcher'' \<mapsto> Patcher p]"
  by (simp add: BotLabeler_init_def Let_def)



lemma raw_event_loop_rule_config:
  "rule_config (snd (raw_event_loop ext dataclass rules kwargs func store events self)) =
     rule_config self"
  by (induction events arbitrary: self) (auto split: sum.splits)

text \<open>
  C10. On a freshly constructed labeler the getter of \<^verbatim>\<open>vbml_ignore_case\<close> raises
  \<^verbatim>\<open>KeyError\<close>: the constructor puts exactly the keys \<open>vbml_flags\<close> and \<open>vbml_patcher\<close>
  into \<^verbatim>\<open>rule_config\<close> and the getter looks up \<open>flags\<close>. No operation of the class adds
  that key: the three setters, \<^verbatim>\<open>load\<close> and the registration decorators leave the key
  absent, so the getter keeps raising.
\<close>

theorem vbml_ignore_case_raises_KeyError:
  "vbml_ignore_case (fst (BotLabeler_init p kw store)) = Inl (KeyError ''flags'') \<and>
   dom (rule_config (fst (BotLabeler_init p kw store))) = {''vbml_flags'', ''vbml_patcher''} \<and>
   (rule_config self ''flags'' = None \<longrightarrow>
      vbml_ignore_case self = Inl (KeyError ''flags'') \<and>
      rule_config (vbml_patcher_setter self q) ''flags'' = None \<and>
      rule_config (vbml_flags_setter self fl) ''flags'' = None \<and>
      (\<forall>self'. vbml_ignore_case_setter self b = Inr self' \<longrightarrow> rule_config self' ''flags'' = None) \<and>
      rule_config (load self other) ''flags'' = None \<and>
      rule_config (snd (message ext rules blocking kwargs func st self)) ''flags'' = None \<and>
      rule_config (snd (chat_message ext rules blocking kwargs func st self)) ''flags'' = None \<and>
      rule_config (snd (private_message ext rules blocking kwargs func st self)) ''flags'' = None \<and>
      rule_config (snd (raw_event ext event dataclass rules kwargs func st self)) ''flags'' = None)"
proof (intro conjI impI allI)
  show "vbml_ignore_case (fst (BotLabeler_init p kw store)) = Inl (KeyError ''flags'')"
    by (simp add: vbml_ignore_case_def BotLabeler_init_rule_config)
  show "dom (rule_config (fst (BotLabeler_init p kw store))) = {''vbml_flags'', ''vbml_patcher''}"
    by (auto simp: BotLabeler_init_rule_config)
next
  assume absent: "rule_config self ''flags'' = None"
  show "vbml_ignore_case self = Inl (KeyError ''flags'')"
    using absent by (simp add: vbml_ignore_case_def)
  show "rule_config (vbml_patcher_setter self q) ''flags'' = None"
    using absent by (simp add: vbml_patcher_setter_def)
  show "rule_config (vbml_flags_setter self fl) ''flags'' = None"
    using absent by (simp add: vbml_flags_setter_def)
  show "rule_config (load self other) ''flags'' = None"
    using absent by (simp add: load_def)
  show "rule_config (snd (message ext rules blocking kwargs func st self)) ''flags'' = None"
    using absent by (simp add: message_def append_handler_def split: sum.splits)
  show "rule_config (snd (chat_message ext rules blocking kwargs func st self)) ''flags'' = None"
    using absent by (simp add: chat_message_def append_handler_def split: sum.splits)
  show "rule_config (snd (private_message ext rules blocking kwargs func st self)) ''flags'' = None"
    using absent by (simp add: private_message_def append_handler_def split: sum.splits)
  show "rule_config (snd (raw_event ext event dataclass rules kwargs func st self)) ''flags'' = None"
    using absent by (simp add: raw_event_def raw_event_loop_rule_config)
  fix self'
  assume "vbml_ignore_case_setter self b = Inr self'"
  then show "rule_config self' ''flags'' = None"
    using absent
    by (auto simp: vbml_ignore_case_setter_def split: option.splits config_value.splits)
qed

theorem vbml_ignore_case_raises_KeyError_witness:
  "rule_config (fst (BotLabeler_init (0::nat) None (module_store :: nat store)
      :: (nat, nat, nat, nat, nat) BotLabeler \<times> nat store)) ''flags'' = None \<and>
   vbml_ignore_case (vbml_flags_setter (fst (BotLabeler_init (0::nat) None (module_store :: nat store)
      :: (nat, nat, nat, nat, nat) BotLabeler \<times> nat store)) re_IGNORECASE)
     = (Inl (KeyError ''flags'') :: nat exn + bool)"
proof -
  let ?fresh = "fst (BotLabeler_init (0::nat) None (module_store :: nat store)
      :: (nat, nat, nat, nat, nat) BotLabeler \<times> nat store)"
  have absent: "rule_config ?fresh ''flags'' = None"
    by (simp add: BotLabeler_init_rule_config)
  note kept = vbml_ignore_case_raises_KeyError
    [where self = ?fresh and fl = re_IGNORECASE,
      THEN conjunct2, THEN conjunct2, THEN mp, OF absent,
      THEN conjunct2, THEN conjunct2, THEN conjunct1]
  note raises = vbml_ignore_case_raises_KeyError
    [where self = "vbml_flags_setter ?fresh re_IGNORECASE",
      THEN conjunct2, THEN conjunct2, THEN mp, OF kept, THEN conjunct1]
  show ?thesis
    by (rule conjI [OF absent raises])
qed

end
